theory Spec2Isabelle
  imports Main "HOL-Library.Word"
begin

section \<open>Python values: errors and text\<close>

text \<open>
  The program is Python 2: \<open>str\<close> is a byte string (here \<open>string\<close>, a list of 8-bit
  characters) and \<open>unicode\<close> is a sequence of code points (here a list of naturals).
  Every exception the modelled code can raise is a value of \<open>py_error\<close>; a function that
  can raise returns \<open>py_error + 'a\<close>, and \<open>and_then\<close> passes the first error on, as an
  unhandled exception does.
\<close>

datatype py_error =
  IndexError | ValueError | KeyError | OverflowError | UnicodeDecodeError | CsvError | LocaleError
  | IOError | OSError

type_synonym unicode = "nat list"

definition and_then :: "'e + 'a \<Rightarrow> ('a \<Rightarrow> 'e + 'b) \<Rightarrow> 'e + 'b" where
  "and_then r f = (case r of Inl e \<Rightarrow> Inl e | Inr x \<Rightarrow> f x)"

definition u :: "string \<Rightarrow> unicode" where
  \<comment> \<open>an ASCII literal read as unicode text\<close>
  "u s = map of_char s"

definition getitem :: "'a list \<Rightarrow> nat \<Rightarrow> py_error + 'a" where
  \<comment> \<open>\<open>xs[i]\<close> for a literal index \<open>i \<ge> 0\<close>\<close>
  "getitem xs i = (if i < length xs then Inr (xs ! i) else Inl IndexError)"

fun py_split :: "'a \<Rightarrow> 'a list \<Rightarrow> 'a list list" where
  \<comment> \<open>\<open>s.split(sep)\<close> for a one-character separator: empty tokens are kept\<close>
  "py_split sep [] = [[]]"
| "py_split sep (c # cs) =
     (if c = sep then [] # py_split sep cs
      else (case py_split sep cs of [] \<Rightarrow> [[c]] | t # ts \<Rightarrow> (c # t) # ts))"

text \<open>
  The builtins \<open>int()\<close> and \<open>unicode.capitalize()\<close> read the Unicode character database:
  \<open>int\<close> takes the decimal digits and the white space of every script, \<open>capitalize\<close>
  the case mappings of every letter. The database is not part of the program; the code
  that calls the two builtins takes them as the parameters \<open>py_int\<close> and
  \<open>py_capitalize\<close>.
\<close>

record builtins =
  py_int :: "unicode \<Rightarrow> py_error + int"
  py_capitalize :: "unicode \<Rightarrow> unicode"

fun map_int :: "builtins \<Rightarrow> unicode list \<Rightarrow> py_error + int list" where
  \<comment> \<open>\<open>map(int, xs)\<close>: the first element that is no integer raises\<close>
  "map_int b [] = Inr []"
| "map_int b (s # ss) =
     and_then (py_int b s) (\<lambda>v. and_then (map_int b ss) (\<lambda>vs. Inr (v # vs)))"

definition str_eq :: "string \<Rightarrow> unicode \<Rightarrow> bool" where
  \<comment> \<open>\<open>s == t\<close> for a \<open>str\<close> and a \<open>unicode\<close>: the bytes are decoded as ASCII, and a \<open>str\<close>
     with a byte above 127 is equal to no \<open>unicode\<close>\<close>
  "str_eq s t \<longleftrightarrow> list_all (\<lambda>c. (of_char c :: nat) < 128) s \<and> map of_char s = t"

fun index :: "('a \<Rightarrow> 'b \<Rightarrow> bool) \<Rightarrow> 'a list \<Rightarrow> 'b \<Rightarrow> py_error + nat" where
  \<comment> \<open>\<open>xs.index(x)\<close>: the first position whose element is equal to \<open>x\<close>, ValueError when
     there is none\<close>
  "index eq [] x = Inl ValueError"
| "index eq (y # ys) x = (if eq y x then Inr 0 else and_then (index eq ys x) (\<lambda>i. Inr (Suc i)))"

subsection \<open>The builtins on ASCII text\<close>

text \<open>
  On text of ASCII digits and letters the two builtins are \<open>ascii_int\<close> (blanks around an
  optional sign and at least one digit) and \<open>ascii_capitalize\<close>. They run the concrete
  examples of this theory, whose tokens are of that kind; no general statement below
  depends on them.
\<close>

definition is_space :: "nat \<Rightarrow> bool" where
  "is_space c \<longleftrightarrow> c = 32 \<or> (9 \<le> c \<and> c \<le> 13)"

definition is_digit :: "nat \<Rightarrow> bool" where
  "is_digit c \<longleftrightarrow> 48 \<le> c \<and> c \<le> 57"

definition strip :: "unicode \<Rightarrow> unicode" where
  "strip s = rev (dropWhile is_space (rev (dropWhile is_space s)))"

definition digits_value :: "unicode \<Rightarrow> nat" where
  "digits_value ds = foldl (\<lambda>a c. 10 * a + (c - 48)) 0 ds"

definition ascii_int :: "unicode \<Rightarrow> py_error + int" where
  "ascii_int s =
     (let t = strip s;
          neg = (case t of [] \<Rightarrow> False | c # _ \<Rightarrow> c = 45);
          ds = (case t of [] \<Rightarrow> [] | c # r \<Rightarrow> if c = 45 \<or> c = 43 then r else t)
      in if ds \<noteq> [] \<and> list_all is_digit ds
         then Inr (if neg then - int (digits_value ds) else int (digits_value ds))
         else Inl ValueError)"

definition upper :: "nat \<Rightarrow> nat" where
  "upper c = (if 97 \<le> c \<and> c \<le> 122 then c - 32 else c)"

definition lower :: "nat \<Rightarrow> nat" where
  "lower c = (if 65 \<le> c \<and> c \<le> 90 then c + 32 else c)"

definition ascii_capitalize :: "unicode \<Rightarrow> unicode" where
  "ascii_capitalize s = (case s of [] \<Rightarrow> [] | c # cs \<Rightarrow> upper c # map lower cs)"

definition ascii_builtins :: builtins where
  "ascii_builtins = \<lparr>py_int = ascii_int, py_capitalize = ascii_capitalize\<rparr>"

section \<open>Timestamps\<close>

text \<open>
  \<open>datetime.datetime\<close> with a \<open>tzinfo\<close>. The table \<open>tz\<close> of the source attaches
  \<open>pytz.timezone('Europe/Stockholm')\<close> or \<open>pytz.utc\<close> through the constructor's
  \<open>tzinfo=\<close> argument; a pytz zone attached that way reports its first (local mean time)
  offset, one hour and twelve minutes for Stockholm. The cache reader's dateutil parser
  attaches a fixed offset in minutes.
\<close>

datatype tzinfo = Europe_Stockholm | UTC | Tzoffset int

record datetime =
  year :: int
  month :: int
  day :: int
  hour :: int
  minute :: int
  second :: int
  tzinfo :: tzinfo

fun utcoffset :: "tzinfo \<Rightarrow> int" where
  \<comment> \<open>minutes east of UTC\<close>
  "utcoffset Europe_Stockholm = 72"
| "utcoffset UTC = 0"
| "utcoffset (Tzoffset m) = m"

definition is_leap :: "int \<Rightarrow> bool" where
  "is_leap y \<longleftrightarrow> y mod 4 = 0 \<and> (y mod 100 \<noteq> 0 \<or> y mod 400 = 0)"

definition days_in_month :: "int \<Rightarrow> int \<Rightarrow> int" where
  "days_in_month y m =
     (if m = 2 \<and> is_leap y then 29
      else [31, 28, 31, 30, 31, 30, 31, 31, 30, 31, 30, 31] ! nat (m - 1))"

definition days_before_year :: "int \<Rightarrow> int" where
  "days_before_year y = (y - 1) * 365 + (y - 1) div 4 - (y - 1) div 100 + (y - 1) div 400"

definition days_before_month :: "int \<Rightarrow> int \<Rightarrow> int" where
  "days_before_month y m =
     [0, 31, 59, 90, 120, 151, 181, 212, 243, 273, 304, 334] ! nat (m - 1)
       + (if 2 < m \<and> is_leap y then 1 else 0)"

definition ymd2ord :: "int \<Rightarrow> int \<Rightarrow> int \<Rightarrow> int" where
  \<comment> \<open>the proleptic Gregorian ordinal: 1 January of year 1 is day 1\<close>
  "ymd2ord y m d = days_before_year y + days_before_month y m + d"

definition toordinal :: "datetime \<Rightarrow> int" where
  "toordinal dt = ymd2ord (year dt) (month dt) (day dt)"

definition weekday :: "datetime \<Rightarrow> int" where
  \<comment> \<open>\<open>datetime.weekday()\<close>\<close>
  "weekday dt = (toordinal dt + 6) mod 7"

definition date_weekday :: "int \<Rightarrow> int \<Rightarrow> int \<Rightarrow> int" where
  \<comment> \<open>\<open>datetime.date(y, m, d).weekday()\<close>\<close>
  "date_weekday y m d = (ymd2ord y m d + 6) mod 7"

definition c_int :: "int \<Rightarrow> bool" where
  \<comment> \<open>the constructor reads its numbers as C ints\<close>
  "c_int v \<longleftrightarrow> - 2147483648 \<le> v \<and> v \<le> 2147483647"

definition datetime_datetime ::
  "int \<Rightarrow> int \<Rightarrow> int \<Rightarrow> int \<Rightarrow> int \<Rightarrow> int \<Rightarrow> tzinfo \<Rightarrow> py_error + datetime" where
  \<comment> \<open>\<open>datetime.datetime(year, month, day, hour, minute, second, tzinfo=...)\<close>\<close>
  "datetime_datetime y mo d h mi s z =
     (if \<not> (c_int y \<and> c_int mo \<and> c_int d \<and> c_int h \<and> c_int mi \<and> c_int s) then Inl OverflowError
      else if y < 1 \<or> 9999 < y then Inl ValueError
      else if mo < 1 \<or> 12 < mo then Inl ValueError
      else if d < 1 \<or> days_in_month y mo < d then Inl ValueError
      else if h < 0 \<or> 23 < h then Inl ValueError
      else if mi < 0 \<or> 59 < mi then Inl ValueError
      else if s < 0 \<or> 59 < s then Inl ValueError
      else Inr \<lparr>year = y, month = mo, day = d, hour = h, minute = mi, second = s, tzinfo = z\<rparr>)"

subsection \<open>The date parser of the source\<close>

definition tz :: "unicode \<Rightarrow> tzinfo option" where
  "tz = [u ''UTC+01'' \<mapsto> Europe_Stockholm, u ''UTC'' \<mapsto> UTC]"

definition tz_getitem :: "unicode \<Rightarrow> py_error + tzinfo" where
  \<comment> \<open>\<open>tz[label]\<close>\<close>
  "tz_getitem label = (case tz label of None \<Rightarrow> Inl KeyError | Some z \<Rightarrow> Inr z)"

definition month_name_en_US :: "string list" where
  \<comment> \<open>\<open>list(calendar.month_name)\<close> under the default locale \<open>en_US\<close>\<close>
  "month_name_en_US = ['''', ''January'', ''February'', ''March'', ''April'', ''May'', ''June'',
     ''July'', ''August'', ''September'', ''October'', ''November'', ''December'']"

definition parse_datetime :: "builtins \<Rightarrow> string list \<Rightarrow> unicode \<Rightarrow> py_error + datetime" where
  \<comment> \<open>\<open>month_name\<close> is \<open>list(calendar.month_name)\<close>, byte strings which the current locale
     decides; the text \<open>dt_str\<close> is \<open>unicode\<close>\<close>
  "parse_datetime b month_name dt_str =
     (let parts = py_split 32 dt_str in
      and_then (getitem parts 5) (\<lambda>p5.
      and_then (map_int b (py_split 58 p5)) (\<lambda>hm.
      (case hm of
         [h, m] \<Rightarrow>
           and_then (getitem parts 3) (\<lambda>p3.
           and_then (py_int b p3) (\<lambda>y.
           and_then (getitem parts 2) (\<lambda>p2.
           and_then (index str_eq month_name (py_capitalize b p2)) (\<lambda>mo.
           and_then (getitem parts 1) (\<lambda>p1.
           and_then (py_int b p1) (\<lambda>d.
           and_then (getitem parts 6) (\<lambda>p6.
           and_then (tz_getitem p6) (\<lambda>z.
           datetime_datetime y (int mo) d h m 0 z))))))))
       | _ \<Rightarrow> Inl ValueError))))"


subsection \<open>Printing a timestamp\<close>

definition digit_char :: "nat \<Rightarrow> char" where
  "digit_char n = char_of (48 + n mod 10)"

fun dec :: "nat \<Rightarrow> string" where
  "dec n = (if n < 10 then [digit_char n] else dec (n div 10) @ [digit_char n])"

definition fmt_d :: "nat \<Rightarrow> int \<Rightarrow> string" where
  \<comment> \<open>\<open>"%0wd" % i\<close>\<close>
  "fmt_d w i =
     (if i < 0 then CHR ''-'' # replicate (w - 1 - length (dec (nat (- i)))) CHR ''0'' @ dec (nat (- i))
      else replicate (w - length (dec (nat i))) CHR ''0'' @ dec (nat i))"

definition isoformat :: "datetime \<Rightarrow> string" where
  \<comment> \<open>\<open>datetime.isoformat()\<close> of a timestamp with a tzinfo and no microseconds\<close>
  "isoformat dt =
     (let off = utcoffset (tzinfo dt) in
      fmt_d 4 (year dt) @ ''-'' @ fmt_d 2 (month dt) @ ''-'' @ fmt_d 2 (day dt) @ ''T''
        @ fmt_d 2 (hour dt) @ '':'' @ fmt_d 2 (minute dt) @ '':'' @ fmt_d 2 (second dt)
        @ (if off < 0 then ''-'' else ''+'')
        @ fmt_d 2 (\<bar>off\<bar> div 60) @ '':'' @ fmt_d 2 (\<bar>off\<bar> mod 60))"

definition timestamp :: "datetime \<Rightarrow> int" where
  \<comment> \<open>the absolute time, in seconds: what \<open>==\<close> compares on timestamps with a tzinfo\<close>
  "timestamp dt =
     ((toordinal dt * 24 + hour dt) * 60 + minute dt - utcoffset (tzinfo dt)) * 60 + second dt"

subsection \<open>Reading a timestamp back\<close>

text \<open>
  The cache reader parses the third field with dateutil's \<open>parser.parse\<close>. dateutil is a
  free-form parser; it is modelled on the strings \<open>isoformat\<close> writes
  (\<open>YYYY-MM-DDTHH:MM:SS+HH:MM\<close>), which it reads as the ISO 8601 timestamp they denote,
  with a fixed-offset tzinfo (UTC for offset zero). Any other string is a ValueError here.
\<close>

definition is_digit_char :: "char \<Rightarrow> bool" where
  "is_digit_char c \<longleftrightarrow> is_digit (of_char c)"

definition number :: "string \<Rightarrow> int" where
  "number s = int (digits_value (map of_char s))"

definition substr :: "string \<Rightarrow> nat \<Rightarrow> nat \<Rightarrow> string" where
  \<comment> \<open>\<open>s[i:i+n]\<close>\<close>
  "substr s i n = take n (drop i s)"

definition parser_parse :: "string \<Rightarrow> py_error + datetime" where
  "parser_parse s =
     (if length s = 25
         \<and> list_all is_digit_char (substr s 0 4 @ substr s 5 2 @ substr s 8 2 @ substr s 11 2
              @ substr s 14 2 @ substr s 17 2 @ substr s 20 2 @ substr s 23 2)
         \<and> s ! 4 = CHR ''-'' \<and> s ! 7 = CHR ''-'' \<and> s ! 10 = CHR ''T'' \<and> s ! 13 = CHR '':''
         \<and> s ! 16 = CHR '':'' \<and> (s ! 19 = CHR ''+'' \<or> s ! 19 = CHR ''-'') \<and> s ! 22 = CHR '':''
         \<and> number (substr s 23 2) < 60
      then
        (let off = (if s ! 19 = CHR ''-'' then - 1 else 1)
                     * (number (substr s 20 2) * 60 + number (substr s 23 2))
         in datetime_datetime (number (substr s 0 4)) (number (substr s 5 2))
              (number (substr s 8 2)) (number (substr s 11 2)) (number (substr s 14 2))
              (number (substr s 17 2)) (if off = 0 then UTC else Tzoffset off))
      else Inl ValueError)"

section \<open>UTF-8\<close>

text \<open>
  \<open>unicode.encode('utf8')\<close> and \<open>str.decode('utf-8')\<close> of Python 2. The decoder is strict
  (a malformed, truncated or overlong sequence raises); as in Python 2 it does not refuse
  surrogate code points.
\<close>

definition encode_char :: "nat \<Rightarrow> string" where
  "encode_char c =
     (if c < 0x80 then [char_of c]
      else if c < 0x800 then [char_of (0xC0 + c div 64), char_of (0x80 + c mod 64)]
      else if c < 0x10000 then
        [char_of (0xE0 + c div 4096), char_of (0x80 + c div 64 mod 64), char_of (0x80 + c mod 64)]
      else
        [char_of (0xF0 + c div 262144), char_of (0x80 + c div 4096 mod 64),
         char_of (0x80 + c div 64 mod 64), char_of (0x80 + c mod 64)])"

definition encode_utf8 :: "unicode \<Rightarrow> string" where
  "encode_utf8 s = concat (map encode_char s)"

definition cont :: "char \<Rightarrow> bool" where
  \<comment> \<open>a continuation byte \<open>10xxxxxx\<close>\<close>
  "cont b \<longleftrightarrow> 0x80 \<le> (of_char b :: nat) \<and> (of_char b :: nat) < 0xC0"

definition low6 :: "char \<Rightarrow> nat" where
  "low6 b = of_char b - 0x80"

definition decode_char :: "string \<Rightarrow> (nat \<times> nat) option" where
  \<comment> \<open>the code point that starts the byte string, and the number of bytes it takes\<close>
  "decode_char s =
     (case s of
        [] \<Rightarrow> None
      | b # bs \<Rightarrow>
         (let n = (of_char b :: nat) in
          if n < 0x80 then Some (n, 1)
          else if 0xC2 \<le> n \<and> n < 0xE0 then
            (case bs of
               b1 # _ \<Rightarrow> if cont b1 then Some ((n - 0xC0) * 64 + low6 b1, 2) else None
             | _ \<Rightarrow> None)
          else if 0xE0 \<le> n \<and> n < 0xF0 then
            (case bs of
               b1 # b2 # _ \<Rightarrow>
                 (let c = ((n - 0xE0) * 64 + low6 b1) * 64 + low6 b2 in
                  if cont b1 \<and> cont b2 \<and> 0x800 \<le> c then Some (c, 3) else None)
             | _ \<Rightarrow> None)
          else if 0xF0 \<le> n \<and> n < 0xF5 then
            (case bs of
               b1 # b2 # b3 # _ \<Rightarrow>
                 (let c = (((n - 0xF0) * 64 + low6 b1) * 64 + low6 b2) * 64 + low6 b3 in
                  if cont b1 \<and> cont b2 \<and> cont b3 \<and> 0x10000 \<le> c \<and> c < 0x110000
                  then Some (c, 4) else None)
             | _ \<Rightarrow> None)
          else None))"

lemma decode_char_pos: "decode_char s = Some (c, k) \<Longrightarrow> 0 < k"
  by (auto simp: decode_char_def Let_def split: list.splits if_splits)

function decode_utf8 :: "string \<Rightarrow> py_error + unicode" where
  "decode_utf8 s =
     (if s = [] then Inr []
      else (case decode_char s of
              None \<Rightarrow> Inl UnicodeDecodeError
            | Some (c, k) \<Rightarrow> and_then (decode_utf8 (drop k s)) (\<lambda>r. Inr (c # r))))"
  by pat_completeness auto
termination
  by (relation "measure length") (auto dest: decode_char_pos)

section \<open>The csv module\<close>

text \<open>
  The cache is written by \<open>csv.writer(csvfile, delimiter=',', quotechar='"',
  quoting=csv.QUOTE_MINIMAL)\<close> and read by \<open>csv.reader(csvfile, delimiter=',',
  quotechar='"')\<close>: double quotes are doubled, the line terminator is CR LF, the reader is
  not strict. The definitions follow the module of Python 2: the writer takes each
  field as a C string, which ends at its first NUL byte, and the reader is the module's
  state machine, fed one line of the file at a time, each line followed by the
  end-of-line mark (the character NUL); a NUL byte in the file itself is an error, and
  so is a field that grows beyond the module's field size limit.
\<close>

abbreviation NUL :: char where "NUL \<equiv> CHR 0x00"
abbreviation LF :: char where "LF \<equiv> CHR 0x0A"
abbreviation CR :: char where "CR \<equiv> CHR 0x0D"

fun join :: "'a list \<Rightarrow> 'a list list \<Rightarrow> 'a list" where
  \<comment> \<open>\<open>sep.join(xs)\<close>\<close>
  "join sep [] = []"
| "join sep [x] = x"
| "join sep (x # y # zs) = x @ sep @ join sep (y # zs)"

definition c_str :: "string \<Rightarrow> string" where
  "c_str f = takeWhile (\<lambda>c. c \<noteq> NUL) f"

definition special :: "char \<Rightarrow> bool" where
  \<comment> \<open>the delimiter, the quote character, and the characters of the line terminator\<close>
  "special c \<longleftrightarrow> c = CHR '','' \<or> c = CHR ''\"'' \<or> c = CR \<or> c = LF"

definition join_append :: "string \<Rightarrow> bool \<Rightarrow> string" where
  \<comment> \<open>one field as written; \<open>quote_empty\<close> holds for the only field of a row\<close>
  "join_append f quote_empty =
     (let s = c_str f;
          body = concat (map (\<lambda>c. if c = CHR ''\"'' then [c, c] else [c]) s)
      in if list_ex special s \<or> (s = [] \<and> quote_empty) then ''\"'' @ body @ ''\"'' else body)"

definition writerow :: "string list \<Rightarrow> string" where
  "writerow row = join '','' (map (\<lambda>f. join_append f (length row = 1)) row) @ [CR, LF]"

datatype parser_state =
  START_RECORD | START_FIELD | IN_FIELD | IN_QUOTED_FIELD | QUOTE_IN_QUOTED_FIELD | EAT_CRNL

record reader =
  state :: parser_state
  rec_fields :: "string list"
  field :: string

definition parse_reset :: reader where
  "parse_reset = \<lparr>state = START_RECORD, rec_fields = [], field = []\<rparr>"

definition parse_save_field :: "reader \<Rightarrow> reader" where
  "parse_save_field r = r\<lparr>rec_fields := rec_fields r @ [field r], field := []\<rparr>"

definition field_limit :: nat where
  \<comment> \<open>\<open>csv.field_size_limit()\<close>, which the program leaves at its default of 128 KiB\<close>
  "field_limit = 131072"

definition parse_add_char :: "reader \<Rightarrow> char \<Rightarrow> py_error + reader" where
  \<comment> \<open>a field that has reached the limit takes no further character\<close>
  "parse_add_char r c =
     (if field_limit \<le> length (field r) then Inl CsvError
      else Inr (r\<lparr>field := field r @ [c]\<rparr>))"

definition end_of_field :: "reader \<Rightarrow> char \<Rightarrow> reader" where
  \<comment> \<open>the field ends at LF, CR or the end-of-line mark\<close>
  "end_of_field r c = (parse_save_field r)\<lparr>state := (if c = NUL then START_RECORD else EAT_CRNL)\<rparr>"

definition start_field :: "reader \<Rightarrow> char \<Rightarrow> py_error + reader" where
  "start_field r c =
     (if c = LF \<or> c = CR \<or> c = NUL then Inr (end_of_field r c)
      else if c = CHR ''\"'' then Inr (r\<lparr>state := IN_QUOTED_FIELD\<rparr>)
      else if c = CHR '','' then Inr ((parse_save_field r)\<lparr>state := START_FIELD\<rparr>)
      else and_then (parse_add_char r c) (\<lambda>r'. Inr (r'\<lparr>state := IN_FIELD\<rparr>)))"

definition parse_process_char :: "reader \<Rightarrow> char \<Rightarrow> py_error + reader" where
  "parse_process_char r c =
     (case state r of
        START_RECORD \<Rightarrow>
          if c = NUL then Inr r
          else if c = LF \<or> c = CR then Inr (r\<lparr>state := EAT_CRNL\<rparr>)
          else start_field r c
      | START_FIELD \<Rightarrow> start_field r c
      | IN_FIELD \<Rightarrow>
          if c = LF \<or> c = CR \<or> c = NUL then Inr (end_of_field r c)
          else if c = CHR '','' then Inr ((parse_save_field r)\<lparr>state := START_FIELD\<rparr>)
          else parse_add_char r c
      | IN_QUOTED_FIELD \<Rightarrow>
          if c = NUL then Inr r
          else if c = CHR ''\"'' then Inr (r\<lparr>state := QUOTE_IN_QUOTED_FIELD\<rparr>)
          else parse_add_char r c
      | QUOTE_IN_QUOTED_FIELD \<Rightarrow>
          if c = CHR ''\"''
          then and_then (parse_add_char r c) (\<lambda>r'. Inr (r'\<lparr>state := IN_QUOTED_FIELD\<rparr>))
          else if c = CHR '','' then Inr ((parse_save_field r)\<lparr>state := START_FIELD\<rparr>)
          else if c = LF \<or> c = CR \<or> c = NUL then Inr (end_of_field r c)
          else and_then (parse_add_char r c) (\<lambda>r'. Inr (r'\<lparr>state := IN_FIELD\<rparr>))
      | EAT_CRNL \<Rightarrow>
          if c = LF \<or> c = CR then Inr r
          else if c = NUL then Inr (r\<lparr>state := START_RECORD\<rparr>)
          else Inl CsvError)"

fun process_line :: "reader \<Rightarrow> string \<Rightarrow> py_error + reader" where
  \<comment> \<open>the characters of one line, then the end-of-line mark\<close>
  "process_line r [] = parse_process_char r NUL"
| "process_line r (c # cs) =
     (if c = NUL then Inl CsvError
      else and_then (parse_process_char r c) (\<lambda>r'. process_line r' cs))"

fun read_rows :: "reader \<Rightarrow> string list \<Rightarrow> (py_error + string list) list" where
  \<comment> \<open>the rows the reader yields from the lines left; an error ends the iteration\<close>
  "read_rows r [] =
     (if field r \<noteq> [] \<or> state r = IN_QUOTED_FIELD then [Inr (rec_fields (parse_save_field r))] else [])"
| "read_rows r (l # ls) =
     (case process_line r l of
        Inl e \<Rightarrow> [Inl e]
      | Inr r' \<Rightarrow>
          if state r' = START_RECORD then Inr (rec_fields r') # read_rows parse_reset ls
          else read_rows r' ls)"

fun readlines :: "string \<Rightarrow> string list" where
  \<comment> \<open>the lines of a file, each with its line feed\<close>
  "readlines [] = []"
| "readlines (c # cs) =
     (if c = LF then [c] # readlines cs
      else (case readlines cs of [] \<Rightarrow> [[c]] | l # ls \<Rightarrow> (c # l) # ls))"

definition csv_reader :: "string \<Rightarrow> (py_error + string list) list" where
  \<comment> \<open>the rows of \<open>csv.reader\<close> over an open file with the given content\<close>
  "csv_reader content = read_rows parse_reset (readlines content)"

section \<open>Message fragments\<close>

subsection \<open>The parsed fragment\<close>

text \<open>
  \<open>BeautifulSoup(html, 'html.parser')\<close> is an external parser: the functions of the
  source take it as the parameter \<open>soup_of\<close>, from the bytes of a fragment to the parsed
  nodes. What the source does with the result is modelled on the tree: \<open>find_all\<close> by
  class and by tag name visits the tags in document order, \<open>.text\<close> joins all strings
  below a tag.
\<close>

datatype node = Tag unicode "(unicode \<times> unicode) list" "node list" | NavigableString unicode

fun tags :: "node \<Rightarrow> node list" where
  \<comment> \<open>a tag and the tags below it, in document order\<close>
  "tags (NavigableString s) = []"
| "tags (Tag n a cs) = Tag n a cs # concat (map tags cs)"

fun get_text :: "node \<Rightarrow> unicode" where
  "get_text (NavigableString s) = s"
| "get_text (Tag n a cs) = concat (map get_text cs)"

definition words :: "unicode \<Rightarrow> unicode list" where
  \<comment> \<open>the whitespace-separated values of a \<open>class\<close> attribute\<close>
  "words s = filter (\<lambda>w. w \<noteq> []) (py_split 32 (map (\<lambda>c. if is_space c then 32 else c) s))"

fun has_class :: "unicode \<Rightarrow> node \<Rightarrow> bool" where
  "has_class cls (NavigableString s) = False"
| "has_class cls (Tag n a cs) =
     (case map_of (rev a) (u ''class'') of
        None \<Rightarrow> False
      | Some v \<Rightarrow> cls \<in> set (words v) \<or> join [32] (words v) = cls)"

fun has_name :: "unicode \<Rightarrow> node \<Rightarrow> bool" where
  "has_name nm (NavigableString s) = False"
| "has_name nm (Tag n a cs) = (n = nm)"

definition find_all_class :: "node list \<Rightarrow> unicode \<Rightarrow> node list" where
  \<comment> \<open>\<open>soup.find_all(class_=cls)\<close>\<close>
  "find_all_class soup cls = filter (has_class cls) (concat (map tags soup))"

definition find_all :: "node list \<Rightarrow> unicode \<Rightarrow> node list" where
  \<comment> \<open>\<open>soup.find_all(name)\<close>\<close>
  "find_all soup nm = filter (has_name nm) (concat (map tags soup))"

record Message =
  user :: unicode
  message :: unicode
  created :: datetime

definition parse_message_from_html ::
  "(string \<Rightarrow> node list) \<Rightarrow> builtins \<Rightarrow> string list \<Rightarrow> string \<Rightarrow> py_error + Message" where
  "parse_message_from_html soup_of b month_name html =
     (let soup = soup_of html in
      and_then (getitem (find_all_class soup (u ''user'')) 0) (\<lambda>e1.
      and_then (getitem (find_all soup (u ''p'')) 0) (\<lambda>e2.
      and_then (getitem (find_all_class soup (u ''meta'')) 0) (\<lambda>e3.
      and_then (parse_datetime b month_name (get_text e3)) (\<lambda>dt.
      Inr \<lparr>user = get_text e1, message = get_text e2, created = dt\<rparr>)))))"

subsection \<open>A parser for plain markup\<close>

text \<open>
  \<open>html_parser\<close> stands in for BeautifulSoup on plain markup: start tags with
  double-quoted attributes, end tags and character data, decoded as UTF-8. As the
  library's tree builder does, an end tag closes the nearest open tag of its name and
  is dropped when there is none, and the end of the input closes every open tag.
  Character references, comments and declarations are not read. The general theorems
  below hold for every parser; this one runs the concrete examples.
\<close>

datatype token = StartTag unicode "(unicode \<times> unicode) list" | EndTag unicode | Data unicode

fun tag_open :: "unicode \<Rightarrow> bool" where
  \<comment> \<open>\<open><\<close> followed by a letter or by \<open>/\<close>\<close>
  "tag_open (c # d # _) = (c = 60 \<and> (d = 47 \<or> (65 \<le> d \<and> d \<le> 90) \<or> (97 \<le> d \<and> d \<le> 122)))"
| "tag_open _ = False"

fun take_data :: "unicode \<Rightarrow> unicode \<times> unicode" where
  \<comment> \<open>the character data up to the next tag, and the rest\<close>
  "take_data [] = ([], [])"
| "take_data (c # cs) =
     (if tag_open (c # cs) then ([], c # cs)
      else (case take_data cs of (d, r) \<Rightarrow> (c # d, r)))"

fun attr_pairs :: "unicode list \<Rightarrow> (unicode \<times> unicode) list" where
  \<comment> \<open>from the pieces between double quotes: \<open>name=\<close>, value, \<open>name=\<close>, value, ...\<close>
  "attr_pairs (k # v # rest) = (map lower (strip (takeWhile (\<lambda>c. c \<noteq> 61) k)), v) # attr_pairs rest"
| "attr_pairs _ = []"

definition tag_token :: "unicode \<Rightarrow> token" where
  \<comment> \<open>the token of the text between \<open><\<close> and \<open>>\<close>\<close>
  "tag_token body =
     (case body of
        [] \<Rightarrow> Data [60, 62]
      | c # cs \<Rightarrow>
          if c = 47 then EndTag (map lower (strip cs))
          else StartTag (map lower (takeWhile (\<lambda>c. \<not> is_space c \<and> c \<noteq> 47) body))
                 (attr_pairs (py_split 34 (dropWhile (\<lambda>c. \<not> is_space c) body))))"

lemma take_data_length: "length (snd (take_data s)) \<le> length s"
proof (induction s)
  case Nil
  show ?case by simp
next
  case (Cons c cs)
  then show ?case by (cases "take_data cs") auto
qed

lemma take_data_shorter: "\<not> tag_open s \<Longrightarrow> s \<noteq> [] \<Longrightarrow> length (snd (take_data s)) < length s"
proof (cases s)
  case Nil
  assume "s \<noteq> []"
  with Nil show ?thesis by simp
next
  case (Cons c cs)
  assume "\<not> tag_open s"
  with Cons take_data_length [of cs] show ?thesis
    by (cases "take_data cs") (auto simp: less_Suc_eq_le)
qed

function tokenize :: "unicode \<Rightarrow> token list" where
  "tokenize s =
     (if s = [] then []
      else if tag_open s then
        tag_token (takeWhile (\<lambda>c. c \<noteq> 62) (tl s))
          # tokenize (drop 1 (dropWhile (\<lambda>c. c \<noteq> 62) (tl s)))
      else Data (fst (take_data s)) # tokenize (snd (take_data s)))"
  by pat_completeness auto
termination
proof (relation "measure length")
  show "wf (measure length)" by simp
next
  fix s :: unicode
  assume "s \<noteq> []" "tag_open s"
  have "length (dropWhile (\<lambda>c. c \<noteq> 62) (tl s)) \<le> length (tl s)"
    by (rule length_dropWhile_le)
  with \<open>s \<noteq> []\<close> show "(drop 1 (dropWhile (\<lambda>c. c \<noteq> 62) (tl s)), s) \<in> measure length"
    by (cases s) auto
next
  fix s :: unicode
  assume "s \<noteq> []" "\<not> tag_open s"
  then show "(snd (take_data s), s) \<in> measure length"
    by (simp add: take_data_shorter)
qed

type_synonym frame = "unicode \<times> (unicode \<times> unicode) list \<times> node list"

fun add_child :: "node \<Rightarrow> frame list \<times> node list \<Rightarrow> frame list \<times> node list" where
  \<comment> \<open>a finished node goes below the innermost open tag, or to the top level\<close>
  "add_child n ([], roots) = ([], roots @ [n])"
| "add_child n ((nm, at, cs) # st, roots) = ((nm, at, cs @ [n]) # st, roots)"

fun pop_tag :: "frame list \<times> node list \<Rightarrow> frame list \<times> node list" where
  "pop_tag ([], roots) = ([], roots)"
| "pop_tag ((nm, at, cs) # st, roots) = add_child (Tag nm at cs) (st, roots)"

definition pop_to_tag :: "unicode \<Rightarrow> frame list \<times> node list \<Rightarrow> frame list \<times> node list" where
  "pop_to_tag nm s =
     (case index (=) (map fst (fst s)) nm of Inl _ \<Rightarrow> s | Inr i \<Rightarrow> (pop_tag ^^ Suc i) s)"

definition void_tags :: "unicode list" where
  "void_tags = map u [''area'', ''base'', ''br'', ''col'', ''embed'', ''hr'', ''img'', ''input'',
     ''keygen'', ''link'', ''menuitem'', ''meta'', ''param'', ''source'', ''track'', ''wbr'']"

fun build :: "token list \<Rightarrow> frame list \<times> node list \<Rightarrow> node list" where
  "build [] s = snd ((pop_tag ^^ length (fst s)) s)"
| "build (Data d # ts) s = build ts (add_child (NavigableString d) s)"
| "build (StartTag n a # ts) s =
     build ts (if n \<in> set void_tags then add_child (Tag n a []) s else ((n, a, []) # fst s, snd s))"
| "build (EndTag n # ts) s = build ts (pop_to_tag n s)"

definition html_parser :: "string \<Rightarrow> node list" where
  "html_parser html =
     build (tokenize (case decode_utf8 html of Inr t \<Rightarrow> t | Inl _ \<Rightarrow> map of_char html)) ([], [])"

subsection \<open>Finding the fragments\<close>

text \<open>
  \<open>re.finditer(r'<div class="message">.*?</p>', text)\<close>: the matches from left to right,
  none overlapping another. The lazy \<open>.*?\<close> stops at the first \<open></p>\<close> and, with no flag
  given, does not cross a line feed.
\<close>

definition startswith :: "string \<Rightarrow> string \<Rightarrow> bool" where
  "startswith s p \<longleftrightarrow> take (length p) s = p"

fun match_rest :: "string \<Rightarrow> string option" where
  \<comment> \<open>the text \<open>.*?</p>\<close> matches at the start of the string\<close>
  "match_rest [] = None"
| "match_rest (c # cs) =
     (if startswith (c # cs) ''</p>'' then Some ''</p>''
      else if c = LF then None
      else map_option ((#) c) (match_rest cs))"

definition pattern_match :: "string \<Rightarrow> string option" where
  \<comment> \<open>the text the whole pattern matches at the start of the string\<close>
  "pattern_match s =
     (if startswith s ''<div class=\"message\">''
      then map_option ((@) ''<div class=\"message\">'') (match_rest (drop 21 s))
      else None)"

lemma pattern_match_nonempty: "pattern_match s = Some m \<Longrightarrow> m \<noteq> []"
  by (auto simp: pattern_match_def split: if_splits)

function finditer :: "string \<Rightarrow> string list" where
  \<comment> \<open>\<open>msg.group()\<close> of every match\<close>
  "finditer s =
     (if s = [] then []
      else (case pattern_match s of
              Some m \<Rightarrow> m # finditer (drop (length m) s)
            | None \<Rightarrow> finditer (tl s)))"
  by pat_completeness auto
termination
  by (relation "measure length") (auto dest: pattern_match_nonempty)

section \<open>The program\<close>

subsection \<open>Paths and the cache key\<close>

definition hex_char :: "nat \<Rightarrow> char" where
  "hex_char d = (if d < 10 then char_of (48 + d) else char_of (87 + d))"

fun hex_digits :: "nat \<Rightarrow> nat \<Rightarrow> string" where
  "hex_digits 0 n = []"
| "hex_digits (Suc k) n = hex_digits k (n div 16) @ [hex_char (n mod 16)]"

definition hexdigest :: "128 word \<Rightarrow> string" where
  \<comment> \<open>the 32 lower-case hexadecimal digits of an MD5 digest\<close>
  "hexdigest w = hex_digits 32 (unat w)"

definition basename :: "string \<Rightarrow> string" where
  "basename p = rev (takeWhile (\<lambda>c. c \<noteq> CHR ''/'') (rev p))"

definition rfind :: "char \<Rightarrow> string \<Rightarrow> int" where
  "rfind c p =
     (if c \<in> set p then int (length p) - 1 - int (length (takeWhile (\<lambda>d. d \<noteq> c) (rev p)))
      else - 1)"

definition splitext :: "string \<Rightarrow> string \<times> string" where
  \<comment> \<open>the extension starts at the last dot of the last component; leading dots of the
     component do not start one\<close>
  "splitext p =
     (let sepIndex = rfind CHR ''/'' p; dotIndex = rfind CHR ''.'' p in
      if sepIndex < dotIndex
           \<and> list_ex (\<lambda>c. c \<noteq> CHR ''.'') (take (nat (dotIndex - (sepIndex + 1))) (drop (nat (sepIndex + 1)) p))
      then (take (nat dotIndex) p, drop (nat dotIndex) p)
      else (p, []))"

definition path_join :: "string \<Rightarrow> string \<Rightarrow> string" where
  "path_join a b =
     (if startswith b ''/'' then b
      else if a = [] \<or> last a = CHR ''/'' then a @ b
      else a @ ''/'' @ b)"

subsection \<open>The process and what surrounds it\<close>

text \<open>
  The state of a run: the regular files by path, the directories, the paths at which the
  operating system lets the process create nothing (a missing permission, a parent that
  is no directory, a full disk), the bytes waiting on the standard input, the
  process-wide locale and the records logged so far. What the program takes from outside
  is a parameter: the MD5 function of hashlib, the fragment parser, the two builtins,
  the locales installed on the system and the directory of the program file.

  Of a locale the program reads the names of the months and the abbreviated names of the
  days, through \<open>calendar.month_name\<close> and \<open>calendar.day_abbr\<close>. The module \<open>calendar\<close>
  gets each name from \<open>strftime\<close> on a date of 2001; the C library under \<open>strftime\<close>
  counts the months from January = 0 and the days of the week from Sunday = 0.
\<close>

record lc_time =
  lc_mon :: "nat \<Rightarrow> string"
  lc_abday :: "nat \<Rightarrow> string"

definition en_US :: lc_time where
  "en_US = \<lparr>lc_mon = (\<lambda>i. tl month_name_en_US ! i),
     lc_abday = (\<lambda>i. [''Sun'', ''Mon'', ''Tue'', ''Wed'', ''Thu'', ''Fri'', ''Sat''] ! i)\<rparr>"

definition strftime_B :: "lc_time \<Rightarrow> int \<Rightarrow> string" where
  \<comment> \<open>\<open>date.strftime('%B')\<close> of a date in month \<open>m\<close>: \<open>tm_mon\<close> is \<open>m - 1\<close>\<close>
  "strftime_B l m = lc_mon l (nat (m - 1))"

definition strftime_a :: "lc_time \<Rightarrow> int \<Rightarrow> string" where
  \<comment> \<open>\<open>date.strftime('%a')\<close> of a date whose \<open>weekday()\<close> is \<open>w\<close>: \<open>tm_wday\<close> is
     \<open>(w + 1) % 7\<close>\<close>
  "strftime_a l w = lc_abday l (nat ((w + 1) mod 7))"

datatype log_record =
  Starting_up | Hash_sum string | Creating_cache_directory | Building_cache | Built_cache
  | Found_cached_CSV_file | Starting_analysis | Finished

record process =
  files :: "string \<Rightarrow> string option"
  dirs :: "string set"
  denied :: "string set"
  stdin :: string
  lc_all :: lc_time
  logged :: "log_record list"

record externals =
  md5 :: "string \<Rightarrow> 128 word"
  soup_of :: "string \<Rightarrow> node list"
  py :: builtins
  locales :: "string \<Rightarrow> lc_time option"
  file_dir :: string

record args =
  filename :: string
  source_locale :: string
  dest_locale :: string

definition LOG :: "log_record \<Rightarrow> process \<Rightarrow> process" where
  "LOG m p = p\<lparr>logged := logged p @ [m]\<rparr>"

definition setlocale :: "externals \<Rightarrow> string \<Rightarrow> process \<Rightarrow> py_error + process" where
  \<comment> \<open>\<open>locale.setlocale(locale.LC_ALL, name)\<close>\<close>
  "setlocale x name p =
     (case locales x name of None \<Rightarrow> Inl LocaleError | Some l \<Rightarrow> Inr (p\<lparr>lc_all := l\<rparr>))"

definition calendar_month_name :: "process \<Rightarrow> string list" where
  \<comment> \<open>\<open>list(calendar.month_name)\<close>: an empty name, then the month names of the first days
     of the twelve months of 2001\<close>
  "calendar_month_name p = [] # map (\<lambda>i. strftime_B (lc_all p) (int i + 1)) [0..<12]"

definition calendar_day_abbr :: "process \<Rightarrow> string list" where
  \<comment> \<open>\<open>list(calendar.day_abbr)\<close>: the day names of the first seven days of January 2001\<close>
  "calendar_day_abbr p =
     map (\<lambda>i. strftime_a (lc_all p) (date_weekday 2001 1 (int i + 1))) [0..<7]"

definition path_exists :: "process \<Rightarrow> string \<Rightarrow> bool" where
  "path_exists p path \<longleftrightarrow> path \<in> dirs p \<or> files p path \<noteq> None"

definition isfile :: "process \<Rightarrow> string \<Rightarrow> bool" where
  "isfile p path \<longleftrightarrow> files p path \<noteq> None"

definition makedirs :: "string \<Rightarrow> process \<Rightarrow> py_error + process" where
  \<comment> \<open>called for a path at which nothing exists\<close>
  "makedirs path p =
     (if path \<in> denied p then Inl OSError else Inr (p\<lparr>dirs := insert path (dirs p)\<rparr>))"

definition open_wb :: "string \<Rightarrow> process \<Rightarrow> py_error + process" where
  \<comment> \<open>\<open>open(path, 'wb')\<close> creates the file, or empties it; a directory cannot be opened\<close>
  "open_wb path p =
     (if path \<in> dirs p \<or> path \<in> denied p then Inl IOError
      else Inr (p\<lparr>files := (files p)(path \<mapsto> [])\<rparr>))"

definition write_file :: "string \<Rightarrow> string \<Rightarrow> process \<Rightarrow> process" where
  \<comment> \<open>bytes written to the open file go to its end\<close>
  "write_file path data p =
     p\<lparr>files := (files p)(path \<mapsto> (case files p path of None \<Rightarrow> data | Some old \<Rightarrow> old @ data))\<rparr>"

definition read_file :: "process \<Rightarrow> string \<Rightarrow> py_error + string" where
  "read_file p path = (case files p path of None \<Rightarrow> Inl IOError | Some data \<Rightarrow> Inr data)"

definition fileinput_input :: "string \<Rightarrow> process \<Rightarrow> (py_error + string list) \<times> process" where
  \<comment> \<open>the lines of \<open>fileinput.input(path)\<close>, read when the program joins them; the name
     \<open>-\<close> stands for the standard input\<close>
  "fileinput_input path p =
     (if path = ''-'' then (Inr (readlines (stdin p)), p\<lparr>stdin := []\<rparr>)
      else (case read_file p path of
              Inl e \<Rightarrow> (Inl e, p)
            | Inr data \<Rightarrow> (Inr (readlines data), p)))"

subsection \<open>Building the cache\<close>

definition cache_row :: "Message \<Rightarrow> string" where
  \<comment> \<open>the row \<open>csvwriter.writerow\<close> writes for a message\<close>
  "cache_row m =
     writerow [encode_utf8 (user m), encode_utf8 (message m), isoformat (created m)]"

fun write_rows ::
  "externals \<Rightarrow> string \<Rightarrow> string list \<Rightarrow> process \<Rightarrow> py_error option \<times> process" where
  \<comment> \<open>the loop over the matches; the first fragment that raises ends it\<close>
  "write_rows x cache_file [] p = (None, p)"
| "write_rows x cache_file (msg # msgs) p =
     (case parse_message_from_html (soup_of x) (py x) (calendar_month_name p) msg of
        Inl e \<Rightarrow> (Some e, p)
      | Inr m \<Rightarrow> write_rows x cache_file msgs (write_file cache_file (cache_row m) p))"

definition scanned_text :: "string list \<Rightarrow> string" where
  \<comment> \<open>\<open>'\n'.join(_input)\<close>: all lines of the input, joined with a line feed, as one string\<close>
  "scanned_text lines = join [LF] lines"

definition cache_file_of :: "externals \<Rightarrow> args \<Rightarrow> string \<Rightarrow> string" where
  "cache_file_of x a data =
     path_join (path_join (file_dir x) ''cache'')
       (fst (splitext (basename (filename a))) @ ''_'' @ hexdigest (md5 x data) @ ''.csv'')"

definition cache_branch ::
  "externals \<Rightarrow> args \<Rightarrow> string \<Rightarrow> process \<Rightarrow> (py_error + string) \<times> process" where
  \<comment> \<open>the statement \<open>if not path.isfile(cache_file): ... else: ...\<close>\<close>
  "cache_branch x a cache_file p =
     (if \<not> isfile p cache_file then
        (let p1 = LOG Building_cache p in
         case open_wb cache_file p1 of
           Inl e \<Rightarrow> (Inl e, p1)
         | Inr p2 \<Rightarrow>
             (case fileinput_input (filename a) p2 of
                (Inl e, p3) \<Rightarrow> (Inl e, p3)
              | (Inr lines, p3) \<Rightarrow>
                  (case write_rows x cache_file (finditer (scanned_text lines)) p3 of
                     (Some e, p4) \<Rightarrow> (Inl e, p4)
                   | (None, p4) \<Rightarrow> (Inr cache_file, LOG Built_cache p4))))
      else (Inr cache_file, LOG Found_cached_CSV_file p))"

definition ensure_cache :: "externals \<Rightarrow> args \<Rightarrow> process \<Rightarrow> (py_error + string) \<times> process" where
  \<comment> \<open>from the start of the program to the end of the cache branch; the path of the
     cache file, or the exception that ended the run\<close>
  "ensure_cache x a p0 =
     (let p1 = LOG Starting_up p0 in
      case read_file p1 (filename a) of
        Inl e \<Rightarrow> (Inl e, p1)
      | Inr data \<Rightarrow>
          (let p2 = LOG (Hash_sum (hexdigest (md5 x data))) p1 in
           case setlocale x (source_locale a) p2 of
             Inl e \<Rightarrow> (Inl e, p2)
           | Inr p3 \<Rightarrow>
               (let cache_dir = path_join (file_dir x) ''cache'' in
                if \<not> path_exists p3 cache_dir then
                  (let p4 = LOG Creating_cache_directory p3 in
                   case makedirs cache_dir p4 of
                     Inl e \<Rightarrow> (Inl e, p4)
                   | Inr p5 \<Rightarrow> cache_branch x a (cache_file_of x a data) p5)
                else cache_branch x a (cache_file_of x a data) p3)))"

subsection \<open>The aggregation\<close>

record User =
  weekdays :: "int list"
  months :: "int list"
  hours :: "int list"

definition message_from_line :: "string list \<Rightarrow> py_error + Message" where
  \<comment> \<open>\<open>Message(line[0].decode('utf-8'), line[1].decode('utf-8'), parser.parse(line[2]))\<close>\<close>
  "message_from_line line =
     and_then (getitem line 0) (\<lambda>f0.
     and_then (decode_utf8 f0) (\<lambda>usr.
     and_then (getitem line 1) (\<lambda>f1.
     and_then (decode_utf8 f1) (\<lambda>msg.
     and_then (getitem line 2) (\<lambda>f2.
     and_then (parser_parse f2) (\<lambda>dt.
     Inr \<lparr>user = usr, message = msg, created = dt\<rparr>))))))"

definition parse_message_from_csv ::
  "(py_error + string list) list \<Rightarrow> (py_error + Message) list" where
  \<comment> \<open>the generator over the rows of the reader\<close>
  "parse_message_from_csv rows = map (\<lambda>r. and_then r message_from_line) rows"

definition setdefault :: "(unicode \<Rightarrow> User option) \<Rightarrow> unicode \<Rightarrow> User" where
  \<comment> \<open>\<open>users.setdefault(name, User([], [], []))\<close>\<close>
  "setdefault users name =
     (case users name of None \<Rightarrow> \<lparr>weekdays = [], months = [], hours = []\<rparr> | Some a \<Rightarrow> a)"

definition record_message :: "(unicode \<Rightarrow> User option) \<Rightarrow> Message \<Rightarrow> (unicode \<Rightarrow> User option)" where
  \<comment> \<open>the body of the aggregation loop\<close>
  "record_message users m =
     (let a = setdefault users (user m) in
      users(user m \<mapsto>
        \<lparr>weekdays = weekdays a @ [weekday (created m)],
         months = months a @ [month (created m)],
         hours = hours a @ [hour (created m)]\<rparr>))"

fun aggregate ::
  "(unicode \<Rightarrow> User option) \<Rightarrow> (py_error + Message) list \<Rightarrow> py_error + (unicode \<Rightarrow> User option)" where
  "aggregate users [] = Inr users"
| "aggregate users (Inl e # ms) = Inl e"
| "aggregate users (Inr m # ms) = aggregate (record_message users m) ms"

definition analysis ::
  "externals \<Rightarrow> args \<Rightarrow> string \<Rightarrow> process \<Rightarrow> (py_error + (unicode \<Rightarrow> User option)) \<times> process" where
  "analysis x a cache_file p =
     (case setlocale x (dest_locale a) p of
        Inl e \<Rightarrow> (Inl e, p)
      | Inr p1 \<Rightarrow>
          (let p2 = LOG Starting_analysis p1 in
           case read_file p2 cache_file of
             Inl e \<Rightarrow> (Inl e, p2)
           | Inr data \<Rightarrow>
               (case aggregate Map.empty (parse_message_from_csv (csv_reader data)) of
                  Inl e \<Rightarrow> (Inl e, p2)
                | Inr users \<Rightarrow> (Inr users, LOG Finished p2))))"

definition main ::
  "externals \<Rightarrow> args \<Rightarrow> process \<Rightarrow> (py_error + (unicode \<Rightarrow> User option)) \<times> process" where
  \<comment> \<open>the program up to the finished aggregate, which the plotting code then reads\<close>
  "main x a p =
     (case ensure_cache x a p of
        (Inl e, p') \<Rightarrow> (Inl e, p')
      | (Inr cache_file, p') \<Rightarrow> analysis x a cache_file p')"

definition weekday_ticklabels :: "process \<Rightarrow> (int \<times> string) list" where
  \<comment> \<open>the weekday axis: ticks \<open>range(0, 8)\<close>, labelled in order with \<open>list(calendar.day_abbr)\<close>\<close>
  "weekday_ticklabels p = zip [0, 1, 2, 3, 4, 5, 6, 7] (calendar_day_abbr p)"

subsection \<open>What the aggregate is measured against\<close>

definition row_user :: "py_error + string list \<Rightarrow> unicode option" where
  \<comment> \<open>the user a cache row counts for: its first field, decoded\<close>
  "row_user r =
     (case r of
        Inl e \<Rightarrow> None
      | Inr line \<Rightarrow>
          (case and_then (getitem line 0) decode_utf8 of Inl e \<Rightarrow> None | Inr name \<Rightarrow> Some name))"

definition rows_of :: "unicode \<Rightarrow> (py_error + string list) list \<Rightarrow> nat" where
  \<comment> \<open>a user's number of rows\<close>
  "rows_of name rows = length (filter (\<lambda>r. row_user r = Some name) rows)"

definition aggregate_inv :: "(unicode \<Rightarrow> User option) \<Rightarrow> (py_error + string list) list \<Rightarrow> bool" where
  \<comment> \<open>a user without an aggregate has no row; the three sequences of a user are as long
     as the user has rows, and their elements are in range\<close>
  "aggregate_inv users rows \<longleftrightarrow>
     (\<forall>name.
        case users name of
          None \<Rightarrow> rows_of name rows = 0
        | Some a \<Rightarrow>
            length (weekdays a) = rows_of name rows
            \<and> length (months a) = rows_of name rows
            \<and> length (hours a) = rows_of name rows
            \<and> list_all (\<lambda>w. 0 \<le> w \<and> w \<le> 6) (weekdays a)
            \<and> list_all (\<lambda>m. 1 \<le> m \<and> m \<le> 12) (months a)
            \<and> list_all (\<lambda>h. 0 \<le> h \<and> h \<le> 23) (hours a))"

definition next_day :: "int \<times> int \<times> int \<Rightarrow> int \<times> int \<times> int" where
  \<comment> \<open>the calendar day after year, month, day\<close>
  "next_day ymd =
     (case ymd of (y, m, d) \<Rightarrow>
        if d < days_in_month y m then (y, m, d + 1)
        else if m < 12 then (y, m + 1, 1)
        else (y + 1, 1, 1))"

definition tomorrow :: "datetime \<Rightarrow> datetime" where
  \<comment> \<open>the same time of the next calendar day\<close>
  "tomorrow dt =
     (case next_day (year dt, month dt, day dt) of
        (y, m, d) \<Rightarrow> dt\<lparr>year := y, month := m, day := d\<rparr>)"

subsection \<open>The reader, one character at a time\<close>

fun feed :: "reader \<Rightarrow> string \<Rightarrow> py_error + reader" where
  \<comment> \<open>the characters of a line, without the end-of-line mark\<close>
  "feed r [] = Inr r"
| "feed r (c # cs) =
     (if c = NUL then Inl CsvError else and_then (parse_process_char r c) (\<lambda>r'. feed r' cs))"

fun scan :: "reader \<Rightarrow> string \<Rightarrow> (py_error + string list) list" where
  \<comment> \<open>the reader over the characters of a file whose lines all end with a line feed\<close>
  "scan r [] =
     (if field r \<noteq> [] \<or> state r = IN_QUOTED_FIELD then [Inr (rec_fields (parse_save_field r))] else [])"
| "scan r (c # cs) =
     (if c = NUL then [Inl CsvError]
      else (case parse_process_char r c of
              Inl e \<Rightarrow> [Inl e]
            | Inr r' \<Rightarrow>
                if c = LF then
                  (case parse_process_char r' NUL of
                     Inl e \<Rightarrow> [Inl e]
                   | Inr r'' \<Rightarrow>
                       if state r'' = START_RECORD then Inr (rec_fields r'') # scan parse_reset cs
                       else scan r'' cs)
                else scan r' cs))"

definition valid_datetime :: "datetime \<Rightarrow> bool" where
  \<comment> \<open>what every \<open>datetime\<close> object satisfies: its constructor has checked the fields, and
     the offset of its tzinfo is less than a day\<close>
  "valid_datetime dt \<longleftrightarrow>
     1 \<le> year dt \<and> year dt \<le> 9999 \<and> 1 \<le> month dt \<and> month dt \<le> 12
     \<and> 1 \<le> day dt \<and> day dt \<le> days_in_month (year dt) (month dt)
     \<and> 0 \<le> hour dt \<and> hour dt \<le> 23 \<and> 0 \<le> minute dt \<and> minute dt \<le> 59
     \<and> 0 \<le> second dt \<and> second dt \<le> 59
     \<and> - 1440 < utcoffset (tzinfo dt) \<and> utcoffset (tzinfo dt) < 1440"

section \<open>Basic facts\<close>

lemma and_then_simps [simp]:
  "and_then (Inl e) f = Inl e"
  "and_then (Inr x) f = f x"
  by (simp_all add: and_then_def)

lemma and_then_Inr_iff: "and_then r f = Inr v \<longleftrightarrow> (\<exists>a. r = Inr a \<and> f a = Inr v)"
  by (cases r) auto

lemma getitem_Inr_iff: "getitem xs i = Inr v \<longleftrightarrow> i < length xs \<and> v = xs ! i"
  by (auto simp: getitem_def)

section \<open>The date parser\<close>

lemma tz_getitem_Inr_iff: "tz_getitem l = Inr z \<longleftrightarrow> tz l = Some z"
  by (auto simp: tz_getitem_def split: option.splits)

lemma datetime_datetime_Inr_iff:
  "datetime_datetime y mo d h mi s z = Inr dt \<longleftrightarrow>
     c_int y \<and> c_int mo \<and> c_int d \<and> c_int h \<and> c_int mi \<and> c_int s
     \<and> 1 \<le> y \<and> y \<le> 9999 \<and> 1 \<le> mo \<and> mo \<le> 12 \<and> 1 \<le> d \<and> d \<le> days_in_month y mo
     \<and> 0 \<le> h \<and> h \<le> 23 \<and> 0 \<le> mi \<and> mi \<le> 59 \<and> 0 \<le> s \<and> s \<le> 59
     \<and> dt = \<lparr>year = y, month = mo, day = d, hour = h, minute = mi, second = s, tzinfo = z\<rparr>"
  by (auto simp: datetime_datetime_def)

lemma days_in_month_le: "1 \<le> m \<Longrightarrow> m \<le> 12 \<Longrightarrow> days_in_month y m \<le> 31"
proof -
  assume "1 \<le> m" "m \<le> 12"
  then have "m = 1 \<or> m = 2 \<or> m = 3 \<or> m = 4 \<or> m = 5 \<or> m = 6 \<or> m = 7 \<or> m = 8 \<or> m = 9 \<or> m = 10
    \<or> m = 11 \<or> m = 12" by arith
  then show ?thesis by (auto simp: days_in_month_def)
qed

text \<open>
  Claim C5, as the code has it. The date parser returns a timestamp exactly when the
  string has at least seven tokens between single spaces (tokens after the seventh are
  not read), the sixth token is \<open>hour:minute\<close> with two integers in 0..23 and 0..59, the
  fourth token is an integer year in 1..9999, the second token is an integer day from 1
  to the number of days that month has in that year, the capitalised third token is one
  of the twelve month names of the locale (the empty first entry of the table does not
  count), and the seventh token is a key of the table \<open>tz\<close>. In every other case it
  raises and returns no timestamp.
\<close>

theorem parse_datetime_succeeds_iff:
  "parse_datetime b month_name s = Inr dt \<longleftrightarrow>
     (\<exists>h mi y mo d z.
        7 \<le> length (py_split 32 s)
        \<and> map_int b (py_split 58 (py_split 32 s ! 5)) = Inr [h, mi]
        \<and> py_int b (py_split 32 s ! 3) = Inr y
        \<and> index str_eq month_name (py_capitalize b (py_split 32 s ! 2)) = Inr mo
        \<and> py_int b (py_split 32 s ! 1) = Inr d
        \<and> tz (py_split 32 s ! 6) = Some z
        \<and> 1 \<le> y \<and> y \<le> 9999 \<and> 1 \<le> mo \<and> mo \<le> 12 \<and> 1 \<le> d \<and> d \<le> days_in_month y (int mo)
        \<and> 0 \<le> h \<and> h \<le> 23 \<and> 0 \<le> mi \<and> mi \<le> 59
        \<and> dt = \<lparr>year = y, month = int mo, day = d, hour = h, minute = mi, second = 0, tzinfo = z\<rparr>)"
  (is "?L \<longleftrightarrow> ?R")
proof
  assume ?L
  then obtain p5 hm where p5: "getitem (py_split 32 s) 5 = Inr p5"
    and hm: "map_int b (py_split 58 p5) = Inr hm"
    and rest: "(case hm of
         [h, m] \<Rightarrow>
           and_then (getitem (py_split 32 s) 3) (\<lambda>p3.
           and_then (py_int b p3) (\<lambda>y.
           and_then (getitem (py_split 32 s) 2) (\<lambda>p2.
           and_then (index str_eq month_name (py_capitalize b p2)) (\<lambda>mo.
           and_then (getitem (py_split 32 s) 1) (\<lambda>p1.
           and_then (py_int b p1) (\<lambda>d.
           and_then (getitem (py_split 32 s) 6) (\<lambda>p6.
           and_then (tz_getitem p6) (\<lambda>z.
           datetime_datetime y (int mo) d h m 0 z))))))))
       | _ \<Rightarrow> Inl ValueError) = Inr dt"
    unfolding parse_datetime_def Let_def and_then_Inr_iff by blast
  from rest obtain h mi where hm2: "hm = [h, mi]"
    by (cases hm rule: list.exhaust; simp split: list.splits)
  from rest [unfolded hm2] show ?R
    using p5 hm hm2
    by (auto simp: and_then_Inr_iff getitem_Inr_iff tz_getitem_Inr_iff datetime_datetime_Inr_iff)
next
  assume ?R
  then obtain h mi y mo d z where
    len: "7 \<le> length (py_split 32 s)"
    and hm: "map_int b (py_split 58 (py_split 32 s ! 5)) = Inr [h, mi]"
    and y: "py_int b (py_split 32 s ! 3) = Inr y"
    and mo: "index str_eq month_name (py_capitalize b (py_split 32 s ! 2)) = Inr mo"
    and d: "py_int b (py_split 32 s ! 1) = Inr d"
    and z: "tz (py_split 32 s ! 6) = Some z"
    and rng: "1 \<le> y" "y \<le> 9999" "1 \<le> mo" "mo \<le> 12" "1 \<le> d" "d \<le> days_in_month y (int mo)"
      "0 \<le> h" "h \<le> 23" "0 \<le> mi" "mi \<le> 59"
    and dt: "dt = \<lparr>year = y, month = int mo, day = d, hour = h, minute = mi, second = 0, tzinfo = z\<rparr>"
    by blast
  from rng have d31: "d \<le> 31" using days_in_month_le [of "int mo" y] by simp
  have dd: "datetime_datetime y (int mo) d h mi 0 z = Inr dt"
    using rng d31 dt by (simp add: datetime_datetime_def c_int_def)
  from len hm y mo d z dd show ?L
    by (simp add: parse_datetime_def Let_def getitem_def tz_getitem_def)
qed

text \<open>
  Claim C5 as stated fails: \<open>Monday, 31 February 2022 at 09:15 UTC\<close> has seven tokens,
  hour 9, minute 15, day 31 within 1..31, a month name of the table and a timezone label
  of the table, and the parser raises ValueError, since February 2022 has 28 days.
\<close>

theorem parse_datetime_31_February:
  "let s = u ''Monday, 31 February 2022 at 09:15 UTC''; parts = py_split 32 s in
     length parts = 7 \<and> map_int ascii_builtins (py_split 58 (parts ! 5)) = Inr [9, 15]
     \<and> py_int ascii_builtins (parts ! 1) = Inr 31
     \<and> index str_eq month_name_en_US (py_capitalize ascii_builtins (parts ! 2)) = Inr 2
     \<and> tz (parts ! 6) = Some UTC
     \<and> parse_datetime ascii_builtins month_name_en_US s = Inl ValueError"
  by (simp add: Let_def u_def parse_datetime_def getitem_def ascii_builtins_def ascii_int_def
      strip_def is_space_def is_digit_def digits_value_def month_name_en_US_def str_eq_def
      ascii_capitalize_def upper_def lower_def tz_def tz_getitem_def datetime_datetime_def
      c_int_def days_in_month_def is_leap_def)

section \<open>The aggregation loop\<close>

lemma weekday_range: "0 \<le> weekday dt \<and> weekday dt \<le> 6"
  by (simp add: weekday_def)

lemma parser_parse_valid:
  "parser_parse s = Inr dt \<Longrightarrow> 1 \<le> month dt \<and> month dt \<le> 12 \<and> 0 \<le> hour dt \<and> hour dt \<le> 23"
  by (auto simp: parser_parse_def Let_def datetime_datetime_Inr_iff split: if_splits)

lemma message_from_line_Inr:
  "message_from_line line = Inr m \<Longrightarrow>
     row_user (Inr line) = Some (user m)
     \<and> 1 \<le> month (created m) \<and> month (created m) \<le> 12
     \<and> 0 \<le> hour (created m) \<and> hour (created m) \<le> 23"
  by (auto simp: message_from_line_def row_user_def and_then_Inr_iff dest: parser_parse_valid)

lemma record_message_inv:
  assumes "aggregate_inv users rows" and "message_from_line line = Inr m"
  shows "aggregate_inv (record_message users m) (rows @ [Inr line])"
proof -
  note m = message_from_line_Inr [OF assms(2)]
  show ?thesis
    unfolding aggregate_inv_def
  proof
    fix name
    from assms(1) have inv: "case users name of
          None \<Rightarrow> rows_of name rows = 0
        | Some a \<Rightarrow>
            length (weekdays a) = rows_of name rows
            \<and> length (months a) = rows_of name rows
            \<and> length (hours a) = rows_of name rows
            \<and> list_all (\<lambda>w. 0 \<le> w \<and> w \<le> 6) (weekdays a)
            \<and> list_all (\<lambda>m. 1 \<le> m \<and> m \<le> 12) (months a)
            \<and> list_all (\<lambda>h. 0 \<le> h \<and> h \<le> 23) (hours a)"
      by (simp add: aggregate_inv_def)
    show "case record_message users m name of
          None \<Rightarrow> rows_of name (rows @ [Inr line]) = 0
        | Some a \<Rightarrow>
            length (weekdays a) = rows_of name (rows @ [Inr line])
            \<and> length (months a) = rows_of name (rows @ [Inr line])
            \<and> length (hours a) = rows_of name (rows @ [Inr line])
            \<and> list_all (\<lambda>w. 0 \<le> w \<and> w \<le> 6) (weekdays a)
            \<and> list_all (\<lambda>m. 1 \<le> m \<and> m \<le> 12) (months a)
            \<and> list_all (\<lambda>h. 0 \<le> h \<and> h \<le> 23) (hours a)"
    proof (cases "name = user m")
      case True
      with inv m weekday_range [of "created m"] show ?thesis
        by (auto simp: record_message_def setdefault_def rows_of_def Let_def split: option.splits)
    next
      case False
      with inv m show ?thesis
        by (auto simp: record_message_def setdefault_def rows_of_def Let_def split: option.splits)
    qed
  qed
qed

lemma aggregate_inv_step:
  "aggregate_inv users done \<Longrightarrow> aggregate users (parse_message_from_csv rows) = Inr users' \<Longrightarrow>
     aggregate_inv users' (done @ rows)"
proof (induction rows arbitrary: users "done")
  case Nil
  then show ?case by (simp add: parse_message_from_csv_def)
next
  case (Cons r rows)
  from Cons.prems(2) obtain line m where r: "r = Inr line" and m: "message_from_line line = Inr m"
    and rest: "aggregate (record_message users m) (parse_message_from_csv rows) = Inr users'"
    by (cases r; cases "message_from_line (projr r)") (auto simp: parse_message_from_csv_def)
  from Cons.IH [OF record_message_inv [OF Cons.prems(1) m] rest] r show ?case by simp
qed

lemma aggregate_prefix:
  "aggregate users (parse_message_from_csv (xs @ ys)) = Inr users' \<Longrightarrow>
     \<exists>us. aggregate users (parse_message_from_csv xs) = Inr us"
proof (induction xs arbitrary: users)
  case Nil
  then show ?case by (simp add: parse_message_from_csv_def)
next
  case (Cons r xs)
  from Cons.prems obtain line m where r: "r = Inr line" and m: "message_from_line line = Inr m"
    and rest: "aggregate (record_message users m) (parse_message_from_csv (xs @ ys)) = Inr users'"
    by (cases r; cases "message_from_line (projr r)") (auto simp: parse_message_from_csv_def)
  from Cons.IH [OF rest] r m show ?case by (simp add: parse_message_from_csv_def)
qed

text \<open>
  Claim C7. When the aggregation loop has consumed all rows of the cache without raising,
  then after every number \<open>n\<close> of rows the loop has reached a dictionary \<open>us\<close> for which
  \<open>aggregate_inv\<close> holds on the rows read so far: for every user the sequences
  \<open>weekdays\<close>, \<open>months\<close> and \<open>hours\<close> are each as long as the user has rows among them,
  weekdays lie in 0..6, months in 1..12 and hours in 0..23 (and a name with no aggregate
  has no row).
\<close>

theorem aggregate_invariant:
  assumes "aggregate Map.empty (parse_message_from_csv rows) = Inr users"
  shows "\<exists>us. aggregate Map.empty (parse_message_from_csv (take n rows)) = Inr us
           \<and> aggregate_inv us (take n rows)"
proof -
  from assms have "aggregate Map.empty (parse_message_from_csv (take n rows @ drop n rows)) = Inr users"
    by simp
  from aggregate_prefix [OF this] obtain us where
    us: "aggregate Map.empty (parse_message_from_csv (take n rows)) = Inr us" ..
  have "aggregate_inv Map.empty []" by (simp add: aggregate_inv_def rows_of_def)
  from aggregate_inv_step [OF this us] us show ?thesis by auto
qed

theorem aggregate_invariant_witness:
  "(\<exists>users. aggregate Map.empty (parse_message_from_csv
       [Inr [''Alice'', ''hello'', ''2022-01-03T09:15:00+00:00''],
        Inr [''Bob'', ''hi, all'', ''2022-01-09T23:05:00+01:12''],
        Inr [''Alice'', ''bye'', ''2022-02-28T00:00:00+01:12'']]) = Inr users)
   \<and> (\<exists>us. aggregate Map.empty (parse_message_from_csv (take 2
       [Inr [''Alice'', ''hello'', ''2022-01-03T09:15:00+00:00''],
        Inr [''Bob'', ''hi, all'', ''2022-01-09T23:05:00+01:12''],
        Inr [''Alice'', ''bye'', ''2022-02-28T00:00:00+01:12'']])) = Inr us
      \<and> aggregate_inv us (take 2
       [Inr [''Alice'', ''hello'', ''2022-01-03T09:15:00+00:00''],
        Inr [''Bob'', ''hi, all'', ''2022-01-09T23:05:00+01:12''],
        Inr [''Alice'', ''bye'', ''2022-02-28T00:00:00+01:12'']]))"
proof -
  have ok: "\<exists>users. aggregate Map.empty (parse_message_from_csv
       [Inr [''Alice'', ''hello'', ''2022-01-03T09:15:00+00:00''],
        Inr [''Bob'', ''hi, all'', ''2022-01-09T23:05:00+01:12''],
        Inr [''Alice'', ''bye'', ''2022-02-28T00:00:00+01:12'']]) = Inr users"
    by (simp add: parse_message_from_csv_def message_from_line_def getitem_def decode_char_def
      parser_parse_def substr_def is_digit_char_def is_digit_def number_def digits_value_def
      datetime_datetime_def c_int_def days_in_month_def is_leap_def Let_def)
  then obtain users where "aggregate Map.empty (parse_message_from_csv
       [Inr [''Alice'', ''hello'', ''2022-01-03T09:15:00+00:00''],
        Inr [''Bob'', ''hi, all'', ''2022-01-09T23:05:00+01:12''],
        Inr [''Alice'', ''bye'', ''2022-02-28T00:00:00+01:12'']]) = Inr users" ..
  from aggregate_invariant [OF this, of 2] ok show ?thesis by blast
qed

section \<open>The weekday\<close>

lemma div_pred:
  fixes y k :: int
  assumes k: "0 < k"
  shows "y div k = (y - 1) div k + (if y mod k = 0 then 1 else 0)"
proof (cases "y mod k = 0")
  case True
  then obtain q where q: "y = k * q" by (metis mod_eq_0_iff_dvd dvd_def)
  have "k * q - 1 = k * (q - 1) + (k - 1)" by (simp add: algebra_simps)
  then have "(k * q - 1) div k = (k * (q - 1) + (k - 1)) div k" by (simp only:)
  also have "\<dots> = (q - 1) + (k - 1) div k" using k by (subst div_mult_self4) simp_all
  also have "(k - 1) div k = 0" using k by (simp add: div_pos_pos_trivial)
  finally have "(k * q - 1) div k = q - 1" by simp
  with q True k show ?thesis by simp
next
  case False
  have "0 \<le> y mod k" "y mod k < k" using k by simp_all
  with False have r: "1 \<le> y mod k" "y mod k < k" by linarith+
  have "y - 1 = k * (y div k) + (y mod k - 1)" by simp
  then have "(y - 1) div k = (k * (y div k) + (y mod k - 1)) div k" by (simp only:)
  also have "\<dots> = y div k + (y mod k - 1) div k" using k by (subst div_mult_self4) simp_all
  also have "(y mod k - 1) div k = 0" using r by (simp add: div_pos_pos_trivial)
  finally show ?thesis using False by simp
qed


lemma mod_400_100: "(y::int) mod 400 = 0 \<Longrightarrow> y mod 100 = 0"
proof -
  assume "y mod 400 = 0"
  then have "400 dvd y" by (simp add: mod_eq_0_iff_dvd)
  moreover have "(100::int) dvd 400" by simp
  ultimately have "100 dvd y" by (rule dvd_trans [rotated])
  then show ?thesis by (simp add: mod_eq_0_iff_dvd)
qed

lemma mod_100_4: "(y::int) mod 100 = 0 \<Longrightarrow> y mod 4 = 0"
proof -
  assume "y mod 100 = 0"
  then have "100 dvd y" by (simp add: mod_eq_0_iff_dvd)
  moreover have "(4::int) dvd 100" by simp
  ultimately have "4 dvd y" by (rule dvd_trans [rotated])
  then show ?thesis by (simp add: mod_eq_0_iff_dvd)
qed

lemma days_before_year_Suc:
  "days_before_year (y + 1) = days_before_year y + (if is_leap y then 366 else 365)"
proof -
  define A B C where "A = (y - 1) div 4" and "B = (y - 1) div 100" and "C = (y - 1) div 400"
  have a: "y div 4 = A + (if y mod 4 = 0 then 1 else 0)"
    unfolding A_def by (rule div_pred) simp
  have b: "y div 100 = B + (if y mod 100 = 0 then 1 else 0)"
    unfolding B_def by (rule div_pred) simp
  have c: "y div 400 = C + (if y mod 400 = 0 then 1 else 0)"
    unfolding C_def by (rule div_pred) simp
  have l: "days_before_year (y + 1) = y * 365 + y div 4 - y div 100 + y div 400"
    by (simp add: days_before_year_def)
  have r: "days_before_year y = y * 365 - 365 + A - B + C"
    by (simp add: days_before_year_def A_def B_def C_def algebra_simps)
  show ?thesis
  proof (cases "y mod 4 = 0")
    case False
    with mod_100_4 [of y] mod_400_100 [of y] have "y mod 100 \<noteq> 0" "y mod 400 \<noteq> 0" by auto
    with False show ?thesis unfolding l r a b c is_leap_def by simp
  next
    case y4: True
    show ?thesis
    proof (cases "y mod 100 = 0")
      case False
      with mod_400_100 [of y] have "y mod 400 \<noteq> 0" by auto
      with False y4 show ?thesis unfolding l r a b c is_leap_def by simp
    next
      case y100: True
      show ?thesis
      proof (cases "y mod 400 = 0")
        case True
        with y4 y100 show ?thesis unfolding l r a b c is_leap_def by simp
      next
        case False
        with y4 y100 show ?thesis unfolding l r a b c is_leap_def by simp
      qed
    qed
  qed
qed

lemma ymd2ord_next_day:
  assumes "1 \<le> m" "m \<le> 12" "1 \<le> d" "d \<le> days_in_month y m"
  shows "(case next_day (y, m, d) of (y', m', d') \<Rightarrow> ymd2ord y' m' d') = ymd2ord y m d + 1"
proof -
  from assms(1,2) have "m = 1 \<or> m = 2 \<or> m = 3 \<or> m = 4 \<or> m = 5 \<or> m = 6 \<or> m = 7 \<or> m = 8 \<or> m = 9 \<or> m = 10
    \<or> m = 11 \<or> m = 12" by arith
  then show ?thesis
    using assms(3,4) days_before_year_Suc [of y]
    by (elim disjE) (simp_all add: next_day_def ymd2ord_def days_before_month_def days_in_month_def)
qed

lemma weekday_next_day:
  assumes "1 \<le> month dt" "month dt \<le> 12" "1 \<le> day dt" "day dt \<le> days_in_month (year dt) (month dt)"
  shows "weekday (tomorrow dt) = (weekday dt + 1) mod 7"
proof -
  obtain y m d where n: "next_day (year dt, month dt, day dt) = (y, m, d)"
    by (cases "next_day (year dt, month dt, day dt)") auto
  with ymd2ord_next_day [OF assms] have "ymd2ord y m d = ymd2ord (year dt) (month dt) (day dt) + 1"
    by simp
  then have "weekday (dt\<lparr>year := y, month := m, day := d\<rparr>) = (weekday dt + 1) mod 7"
    by (simp add: weekday_def toordinal_def mod_simps add.commute add.left_commute)
  with n show ?thesis by (simp add: tomorrow_def)
qed

lemma known_weekdays:
  "map (\<lambda>(y, m, d). weekday \<lparr>year = y, month = m, day = d, hour = h, minute = mi, second = s,
          tzinfo = z\<rparr>)
     [(2022, 1, 3), (2022, 1, 9), (2022, 2, 1), (2022, 3, 1), (2022, 4, 1), (2022, 5, 1),
      (2022, 6, 1), (2022, 7, 1), (2022, 8, 1), (2022, 9, 1), (2022, 10, 1), (2022, 11, 1),
      (2022, 12, 1), (2023, 12, 31), (2020, 2, 29), (2000, 1, 1), (1970, 1, 1), (1900, 3, 1)]
   = [0, 6, 1, 1, 4, 6, 2, 4, 0, 3, 5, 1, 3, 6, 5, 5, 3, 3]"
  by (simp add: weekday_def toordinal_def ymd2ord_def days_before_year_def days_before_month_def
      is_leap_def)

lemma date_weekday_2001:
  "map (date_weekday 2001 1) [1, 2, 3, 4, 5, 6, 7] = [0, 1, 2, 3, 4, 5, 6]"
  by (simp add: date_weekday_def ymd2ord_def days_before_year_def days_before_month_def)

lemma ticklabel_of_weekday:
  "map_of (weekday_ticklabels p) (weekday dt) = Some (strftime_a (lc_all p) (weekday dt))"
proof -
  define w where "w = weekday dt"
  have "0 \<le> w" "w \<le> 6" by (simp_all add: w_def weekday_def)
  then have "w = 0 \<or> w = 1 \<or> w = 2 \<or> w = 3 \<or> w = 4 \<or> w = 5 \<or> w = 6" by arith
  moreover have "[0..<7] = [0, 1, 2, 3, 4, 5, 6]" by (simp add: upt_rec)
  moreover note date_weekday_2001
  ultimately have "map_of (weekday_ticklabels p) w = Some (strftime_a (lc_all p) w)"
    by (elim disjE) (simp_all add: weekday_ticklabels_def calendar_day_abbr_def)
  then show ?thesis by (simp add: w_def)
qed

text \<open>
  Claim C10. The value the aggregation loop appends to a user's \<open>weekdays\<close> for a message
  is \<open>weekday\<close> of the message's timestamp, and \<open>weekday\<close> counts the days of the week from
  Monday: it is 0 on Monday 3 January 2022 and 6 on the Sunday after it, it has the known
  value on the first day of every month of 2022, on 31 December 2023, 29 February 2020,
  1 January 2000, 1 January 1970 and 1 March 1900, and from every day of the calendar to
  the next it goes up by one modulo 7. On the weekday axis the tick at the value recorded
  for a timestamp carries the name \<open>strftime('%a')\<close> prints, under the locale of the
  process, for a date with that \<open>weekday()\<close>: the labels \<open>calendar.day_abbr\<close> are in the
  same Monday-first order.
\<close>

theorem recorded_weekday_monday_first:
  "map_option weekdays (record_message users m (user m))
       = Some (weekdays (setdefault users (user m)) @ [weekday (created m)])
   \<and> map (\<lambda>(y, mo, d). weekday \<lparr>year = y, month = mo, day = d, hour = h, minute = mi,
             second = s, tzinfo = z\<rparr>)
        [(2022, 1, 3), (2022, 1, 9), (2022, 2, 1), (2022, 3, 1), (2022, 4, 1), (2022, 5, 1),
         (2022, 6, 1), (2022, 7, 1), (2022, 8, 1), (2022, 9, 1), (2022, 10, 1), (2022, 11, 1),
         (2022, 12, 1), (2023, 12, 31), (2020, 2, 29), (2000, 1, 1), (1970, 1, 1), (1900, 3, 1)]
      = [0, 6, 1, 1, 4, 6, 2, 4, 0, 3, 5, 1, 3, 6, 5, 5, 3, 3]
   \<and> (1 \<le> month dt \<and> month dt \<le> 12 \<and> 1 \<le> day dt \<and> day dt \<le> days_in_month (year dt) (month dt)
        \<longrightarrow> weekday (tomorrow dt) = (weekday dt + 1) mod 7)
   \<and> map_of (weekday_ticklabels p) (weekday (created m))
        = Some (strftime_a (lc_all p) (weekday (created m)))"
proof -
  have "map_option weekdays (record_message users m (user m))
       = Some (weekdays (setdefault users (user m)) @ [weekday (created m)])"
    by (simp add: record_message_def Let_def)
  with known_weekdays [of h mi s z] weekday_next_day [of dt] ticklabel_of_weekday [of p "created m"]
  show ?thesis by blast
qed

theorem recorded_weekday_monday_first_witness:
  "map_option weekdays
     (record_message Map.empty
        \<lparr>user = u ''Bob'', message = u ''hi'',
         created = \<lparr>year = 2022, month = 2, day = 1, hour = 23, minute = 5, second = 0,
                      tzinfo = Europe_Stockholm\<rparr>\<rparr> (u ''Bob'')) = Some [1]
   \<and> (1 \<le> (12 :: int) \<and> (12 :: int) \<le> 12 \<and> 1 \<le> (31 :: int) \<and> (31 :: int) \<le> days_in_month 2023 12)
   \<and> tomorrow \<lparr>year = 2023, month = 12, day = 31, hour = 0, minute = 0, second = 0, tzinfo = UTC\<rparr>
        = \<lparr>year = 2024, month = 1, day = 1, hour = 0, minute = 0, second = 0, tzinfo = UTC\<rparr>
   \<and> weekday \<lparr>year = 2023, month = 12, day = 31, hour = 0, minute = 0, second = 0, tzinfo = UTC\<rparr> = 6
   \<and> weekday \<lparr>year = 2024, month = 1, day = 1, hour = 0, minute = 0, second = 0, tzinfo = UTC\<rparr> = 0
   \<and> map_of (weekday_ticklabels
        \<lparr>files = Map.empty, dirs = {}, denied = {}, stdin = [], lc_all = en_US, logged = []\<rparr>) 1
        = Some ''Tue''"
  using recorded_weekday_monday_first [of Map.empty
      "\<lparr>user = u ''Bob'', message = u ''hi'',
         created = \<lparr>year = 2022, month = 2, day = 1, hour = 23, minute = 5, second = 0,
                      tzinfo = Europe_Stockholm\<rparr>\<rparr>" 0 0 0 UTC
      "\<lparr>year = 2023, month = 12, day = 31, hour = 0, minute = 0, second = 0, tzinfo = UTC\<rparr>"
      "\<lparr>files = Map.empty, dirs = {}, denied = {}, stdin = [], lc_all = en_US, logged = []\<rparr>"]
  by (simp add: weekday_def toordinal_def ymd2ord_def days_before_year_def days_before_month_def
      days_in_month_def is_leap_def setdefault_def tomorrow_def next_day_def strftime_a_def
      en_US_def)

section \<open>The cache row of a long message\<close>

lemma process_line_feed:
  "process_line r l = and_then (feed r l) (\<lambda>r'. parse_process_char r' NUL)"
  by (induction l arbitrary: r) (auto simp: and_then_def split: sum.splits)

lemma feed_append:
  "feed r (p @ q) = and_then (feed r p) (\<lambda>r'. feed r' q)"
  by (induction p arbitrary: r) (auto simp: and_then_def split: sum.splits)

lemma readlines_line:
  "LF \<notin> set p \<Longrightarrow> readlines (p @ LF # cs) = (p @ [LF]) # readlines cs"
  by (induction p) auto

lemma feed_field_limit:
  assumes "c \<noteq> LF" "c \<noteq> CR" "c \<noteq> NUL" "c \<noteq> CHR '',''"
  shows "state r = IN_FIELD \<Longrightarrow> length (field r) \<le> field_limit \<Longrightarrow>
    field_limit < length (field r) + n \<Longrightarrow> feed r (replicate n c @ rest) = Inl CsvError"
proof (induction n arbitrary: r)
  case 0
  then show ?case by simp
next
  case (Suc n)
  show ?case
  proof (cases "field_limit \<le> length (field r)")
    case True
    with Suc.prems assms show ?thesis
      by (simp add: parse_process_char_def parse_add_char_def)
  next
    case False
    with Suc.prems assms show ?thesis
      by (simp add: parse_process_char_def parse_add_char_def Suc.IH)
  qed
qed

lemma encode_utf8_replicate: "c < 128 \<Longrightarrow> encode_utf8 (replicate n c) = replicate n (char_of c)"
  by (induction n) (simp_all add: encode_utf8_def encode_char_def)

lemma join_append_replicate:
  "\<not> special c \<Longrightarrow> c \<noteq> NUL \<Longrightarrow> 0 < n \<Longrightarrow> join_append (replicate n c) False = replicate n c"
proof -
  assume c: "\<not> special c" "c \<noteq> NUL" "0 < n"
  then have s: "c_str (replicate n c) = replicate n c" by (simp add: c_str_def)
  have "concat (map (\<lambda>c. if c = CHR ''\"'' then [c, c] else [c]) (replicate n c)) = replicate n c"
    using c(1) by (induction n) (simp_all add: special_def)
  with c s show ?thesis by (simp add: join_append_def Let_def list_ex_iff)
qed

lemma long_row:
  assumes "0 < n"
  shows "cache_row \<lparr>user = u ''Alice'', message = replicate n 97,
       created = \<lparr>year = 2022, month = 1, day = 3, hour = 9, minute = 15, second = 0, tzinfo = UTC\<rparr>\<rparr>
     = ''Alice,'' @ replicate n (CHR ''a'') @ '',2022-01-03T09:15:00+00:00'' @ [CR, LF]"
proof -
  have "char_of (97::nat) = CHR ''a''" by code_simp
  then have a: "encode_utf8 (replicate n 97) = replicate n (CHR ''a'')"
    by (simp add: encode_utf8_replicate)
  have b: "join_append (replicate n (CHR ''a'')) False = replicate n (CHR ''a'')"
    using assms by (rule join_append_replicate [rotated 2]) (simp_all add: special_def)
  have c: "join_append (encode_utf8 (u ''Alice'')) False = ''Alice''"
    by code_simp
  have d: "isoformat \<lparr>year = 2022, month = 1, day = 3, hour = 9, minute = 15, second = 0, tzinfo = UTC\<rparr>
    = ''2022-01-03T09:15:00+00:00''"
    by code_simp
  have e: "join_append ''2022-01-03T09:15:00+00:00'' False = ''2022-01-03T09:15:00+00:00''"
    by code_simp
  show ?thesis by (simp add: cache_row_def writerow_def a b c d e)
qed

lemma long_row_read:
  assumes "field_limit < n"
  shows "csv_reader (''Alice,'' @ replicate n (CHR ''a'') @ '',2022-01-03T09:15:00+00:00'' @ [CR, LF])
    = [Inl CsvError]"
proof -
  obtain k where n: "n = Suc k" using assms by (cases n) auto
  let ?r1 = "\<lparr>state = START_FIELD, rec_fields = [''Alice''], field = []\<rparr>"
  let ?r2 = "\<lparr>state = IN_FIELD, rec_fields = [''Alice''], field = ''a''\<rparr>"
  let ?rest = "'',2022-01-03T09:15:00+00:00'' @ [CR, LF]"
  have f1: "feed parse_reset ''Alice,'' = Inr ?r1"
    by (simp add: parse_reset_def parse_process_char_def start_field_def parse_add_char_def
        parse_save_field_def field_limit_def)
  have f2: "feed ?r1 (replicate n (CHR ''a'') @ ?rest) = feed ?r2 (replicate k (CHR ''a'') @ ?rest)"
    by (simp add: n parse_process_char_def start_field_def parse_add_char_def field_limit_def)
  have f3: "feed ?r2 (replicate k (CHR ''a'') @ ?rest) = Inl CsvError"
    using assms n by (intro feed_field_limit) (simp_all add: field_limit_def)
  have line: "''Alice,'' @ replicate n (CHR ''a'') @ '',2022-01-03T09:15:00+00:00'' @ [CR, LF]
    = (''Alice,'' @ replicate n (CHR ''a'') @ '',2022-01-03T09:15:00+00:00'' @ [CR]) @ LF # []"
    by simp
  have "readlines (''Alice,'' @ replicate n (CHR ''a'') @ '',2022-01-03T09:15:00+00:00'' @ [CR, LF])
    = [''Alice,'' @ replicate n (CHR ''a'') @ ?rest]"
    unfolding line by (subst readlines_line) simp_all
  moreover have "process_line parse_reset (''Alice,'' @ replicate n (CHR ''a'') @ ?rest) = Inl CsvError"
    unfolding process_line_feed feed_append [of _ "''Alice,''"] f1 and_then_simps f2 f3 ..
  ultimately show ?thesis by (simp add: csv_reader_def)
qed

text \<open>
  Claim C4 at a long message. A message whose text is 131073 times the letter \<open>a\<close> is
  written to the cache as one row, the text as it is; the cache reader refuses the row,
  since its second field is longer than the field size limit of the csv module, which
  the program does not raise. The message is not read back.
\<close>

theorem cache_row_field_limit:
  "cache_row \<lparr>user = u ''Alice'', message = replicate 131073 97,
       created = \<lparr>year = 2022, month = 1, day = 3, hour = 9, minute = 15, second = 0, tzinfo = UTC\<rparr>\<rparr>
     = ''Alice,'' @ replicate 131073 (CHR ''a'') @ '',2022-01-03T09:15:00+00:00'' @ [CR, LF]
   \<and> parse_message_from_csv (csv_reader (cache_row
        \<lparr>user = u ''Alice'', message = replicate 131073 97,
         created = \<lparr>year = 2022, month = 1, day = 3, hour = 9, minute = 15, second = 0, tzinfo = UTC\<rparr>\<rparr>))
     = [Inl CsvError]"
proof -
  have "(0::nat) < 131073" "field_limit < 131073" by (simp_all add: field_limit_def)
  from long_row [OF this(1)] long_row_read [OF this(2)] show ?thesis
    by (simp only: parse_message_from_csv_def list.map and_then_simps simp_thms)
qed

end
